theory Spec2Isabelle
  imports Main
begin

section \<open>Integers modulo 97\<close>

text \<open>
  \<^verbatim>\<open>affine_cipher.h\<close> includes \<^verbatim>\<open>math_nerd/int_mod.h\<close> and uses its class template
  at the modulus 97 (\<^verbatim>\<open>using z97 = int_mod::int_mod<97>\<close>). That header is not among
  the sources, so the type and the operations the cipher calls on it (the converting
  constructor, \<^verbatim>\<open>value()\<close>, \<^verbatim>\<open>+\<close>, \<^verbatim>\<open>*\<close>, unary \<^verbatim>\<open>-\<close>, \<^verbatim>\<open>inverse()\<close> and the comparison)
  follow section 4.1 of the specification.
\<close>

text \<open>
  Modelled from the spec: the type \<^verbatim>\<open>int_mod<97>\<close> of the absent \<^verbatim>\<open>int_mod.h\<close>. It
  "wraps a single integer attribute value, invariant 0 <= value < N". \<open>Value\<close> is the
  accessor \<^verbatim>\<open>value()\<close>: "returns the normalized representative in [0, N)".
\<close>

typedef z97 = "{0..<97::int}"
  morphisms Value Abs_z97
  by auto

setup_lifting type_definition_z97

text \<open>
  Modelled from the spec: the constructor of the absent \<^verbatim>\<open>int_mod<97>\<close>. It "normalizes v
  into [0, N) using a true mathematical modulo (result is non-negative even for negative
  v). No error condition; always succeeds." HOL's \<open>mod\<close> on \<open>int\<close> with a positive modulus
  is that modulo.
\<close>

lift_definition Construct :: "int \<Rightarrow> z97" is "\<lambda>v. v mod 97"
  by simp

text \<open>
  Modelled from the spec: \<^verbatim>\<open>operator+\<close> of the absent \<^verbatim>\<open>int_mod<97>\<close>: "perform the integer
  operation then normalize into [0, N)".
\<close>

lift_definition Add :: "z97 \<Rightarrow> z97 \<Rightarrow> z97" is "\<lambda>a b. (a + b) mod 97"
  by simp

text \<open>
  Modelled from the spec: \<^verbatim>\<open>operator*\<close> of the absent \<^verbatim>\<open>int_mod<97>\<close>: "perform the integer
  operation then normalize into [0, N)".
\<close>

lift_definition Multiply :: "z97 \<Rightarrow> z97 \<Rightarrow> z97" is "\<lambda>a b. (a * b) mod 97"
  by simp

text \<open>
  Modelled from the spec: unary \<^verbatim>\<open>operator-\<close> of the absent \<^verbatim>\<open>int_mod<97>\<close>: "perform the
  integer operation then normalize into [0, N)".
\<close>

lift_definition Negate :: "z97 \<Rightarrow> z97" is "\<lambda>a. (- a) mod 97"
  by simp

text \<open>
  Modelled from the spec: \<open>DomainError\<close>, the error of \<^verbatim>\<open>inverse()\<close> of the absent
  \<^verbatim>\<open>int_mod<97>\<close>, under the name the specification gives it. The other constructor is of
  the source: \<open>invalid_argument\<close> is \<^verbatim>\<open>std::invalid_argument\<close> with the message it carries,
  thrown by \<^verbatim>\<open>encrypt\<close> and \<^verbatim>\<open>decrypt\<close>. The source has no other \<^verbatim>\<open>throw\<close>.
\<close>

datatype error = invalid_argument string | DomainError

text \<open>
  Modelled from the spec: \<^verbatim>\<open>inverse()\<close> of the absent \<^verbatim>\<open>int_mod<97>\<close>. "Calling Inverse on
  a = 0 is a precondition violation: fails with DomainError"; otherwise it "returns x such
  that a*x = 1 (mod N)", by "modular exponentiation (a^(N-2) mod N when N is prime)".
\<close>

definition Inverse :: "z97 \<Rightarrow> error + z97" where
  "Inverse a = (if Value a = 0 then Inl DomainError else Inr (Construct (Value a ^ 95)))"

section \<open>The affine cipher of \<^verbatim>\<open>affine_cipher.h\<close>\<close>

text \<open>\<^verbatim>\<open>using affine_key = std::pair<z97, z97>\<close>: the slope first, the intercept second.\<close>

type_synonym affine_key = "z97 \<times> z97"

text \<open>
  \<^verbatim>\<open>ch_table\<close>, a \<^verbatim>\<open>std::array<char, 97>\<close>: one piece for each of the four lines of the
  initializer in the source, the characters in the order of the source. The apostrophe
  (0x27), the double quote (0x22), the backquote (0x60), the backslash (0x5C), the tab
  (0x09) and the newline (0x0A) are written by their codes.
\<close>

definition ch_table :: "char list" where
  "ch_table =
     ''ABCDEFGHIJKLMNOPQRSTUVWXYZ'' @
     ''abcdefghijklmnopqrstuvwxyz'' @
     ''0123456789 ~-=!@#$%^&*()_+'' @
     (''[];'' @ [CHR 0x27] @ '',./{}:'' @ [CHR 0x22] @ ''<>?'' @ [CHR 0x60, CHR 0x5C] @ ''|'' @
      [CHR 0x09, CHR 0x0A])"

text \<open>
  \<^verbatim>\<open>z97_to_char\<close>: \<^verbatim>\<open>ch_table[static_cast<std::size_t>(num.value())]\<close>.
\<close>

definition z97_to_char :: "z97 \<Rightarrow> char" where
  "z97_to_char num = ch_table ! nat (Value num)"

text \<open>
  \<^verbatim>\<open>std::distance(first, std::find(first, last, c))\<close> on a sequence: the position of the
  first element equal to \<open>c\<close>, and the length of the sequence when there is none
  (\<^verbatim>\<open>std::find\<close> then returns \<^verbatim>\<open>last\<close>).
\<close>

fun find_distance :: "char list \<Rightarrow> char \<Rightarrow> nat" where
  "find_distance [] c = 0"
| "find_distance (x # xs) c = (if x = c then 0 else Suc (find_distance xs c))"

text \<open>
  \<^verbatim>\<open>char_to_z97\<close>: the distance is returned as a \<^verbatim>\<open>z97\<close>, that is, through the converting
  constructor.
\<close>

definition char_to_z97 :: "char \<Rightarrow> z97" where
  "char_to_z97 c = Construct (int (find_distance ch_table c))"

text \<open>\<^verbatim>\<open>valid_affine_key\<close>: \<^verbatim>\<open>key.first != 0\<close>, the \<^verbatim>\<open>0\<close> converted to a \<^verbatim>\<open>z97\<close>.\<close>

definition valid_affine_key :: "affine_key \<Rightarrow> bool" where
  "valid_affine_key key = (fst key \<noteq> Construct 0)"

text \<open>
  \<^verbatim>\<open>make_key\<close>: the two draws \<^verbatim>\<open>m_dist(rng)\<close> and \<^verbatim>\<open>b_dist(rng)\<close> of the random device are
  the parameters; the pair is built from them by the converting constructor.
\<close>

definition make_key :: "int \<Rightarrow> int \<Rightarrow> affine_key" where
  "make_key m_draw b_draw = (Construct m_draw, Construct b_draw)"

text \<open>
  The loop of \<^verbatim>\<open>encrypt\<close>: \<^verbatim>\<open>for (auto ch : pt)\<close>, with the string \<^verbatim>\<open>ct\<close> built so far as the
  state and \<^verbatim>\<open>push_back\<close> as appending one character.
\<close>

fun encrypt_loop :: "z97 \<Rightarrow> z97 \<Rightarrow> string \<Rightarrow> string \<Rightarrow> string" where
  "encrypt_loop m b [] ct = ct"
| "encrypt_loop m b (ch # pt) ct =
     (let x = char_to_z97 ch;
          cipher_char = z97_to_char (Add (Multiply m x) b)
      in encrypt_loop m b pt (ct @ [cipher_char]))"

definition encrypt :: "affine_key \<Rightarrow> string \<Rightarrow> error + string" where
  "encrypt key pt =
     (if \<not> valid_affine_key key
      then Inl (invalid_argument ''Key is invalid. Multiplicative part must be non-zero.'')
      else let m = fst key; b = snd key in Inr (encrypt_loop m b pt []))"

text \<open>The loop of \<^verbatim>\<open>decrypt\<close>, with the string \<^verbatim>\<open>pt\<close> built so far as the state.\<close>

fun decrypt_loop :: "z97 \<Rightarrow> z97 \<Rightarrow> string \<Rightarrow> string \<Rightarrow> string" where
  "decrypt_loop m_inv b_inv [] pt = pt"
| "decrypt_loop m_inv b_inv (ch # ct) pt =
     (let y = char_to_z97 ch;
          cipher_char = z97_to_char (Multiply m_inv (Add y b_inv))
      in decrypt_loop m_inv b_inv ct (pt @ [cipher_char]))"

text \<open>
  \<^verbatim>\<open>decrypt\<close>: an error of \<^verbatim>\<open>inverse()\<close> would leave the function as the exception does.
\<close>

definition decrypt :: "affine_key \<Rightarrow> string \<Rightarrow> error + string" where
  "decrypt key ct =
     (if \<not> valid_affine_key key
      then Inl (invalid_argument ''Key is invalid.'')
      else case Inverse (fst key) of
             Inl e \<Rightarrow> Inl e
           | Inr m_inv \<Rightarrow> let b_inv = Negate (snd key) in Inr (decrypt_loop m_inv b_inv ct []))"

section \<open>Definitions used to state the properties\<close>

text \<open>The characters from \<open>a\<close> to \<open>b\<close> in the order of their codes, as in "A-Z".\<close>

definition char_range :: "char \<Rightarrow> char \<Rightarrow> string" where
  "char_range a b = map char_of [of_char a ..< Suc (of_char b)]"

text \<open>
  The alphabet in the words of section 4.2 of the specification: "A-Z (26), a-z (26),
  0-9 (10), space", the symbols in the listed order, then tab and newline. \<open>ch_table\<close>
  above is the table of the source; the two are compared below.
\<close>

definition alphabet_spec :: string where
  "alphabet_spec =
     char_range CHR ''A'' CHR ''Z'' @ char_range CHR ''a'' CHR ''z'' @
     char_range CHR ''0'' CHR ''9'' @ [CHR '' ''] @
     [CHR ''~'', CHR ''-'', CHR ''='', CHR ''!'', CHR ''@'', CHR ''#'', CHR ''$'', CHR ''%'',
      CHR ''^'', CHR ''&'', CHR ''*'', CHR ''('', CHR '')'', CHR ''_'', CHR ''+'', CHR ''['',
      CHR '']'', CHR '';'', CHR 0x27, CHR '','', CHR ''.'', CHR ''/'', CHR ''{'', CHR ''}'',
      CHR '':'', CHR 0x22, CHR ''<'', CHR ''>'', CHR ''?'', CHR 0x60, CHR 0x5C, CHR ''|''] @
     [CHR 0x09, CHR 0x0A]"

text \<open>A result is the invalid-key error when it is \<^verbatim>\<open>std::invalid_argument\<close>, whatever the message.\<close>

definition raises_invalid_key :: "error + string \<Rightarrow> bool" where
  "raises_invalid_key r =
     (case r of Inl (invalid_argument msg) \<Rightarrow> True | Inl DomainError \<Rightarrow> False | Inr out \<Rightarrow> False)"

text \<open>A string with every character outside the table replaced by \<open>A\<close>, the character at index 0.\<close>

definition unknown_as_A :: "string \<Rightarrow> string" where
  "unknown_as_A s = map (\<lambda>c. if c \<in> set ch_table then c else CHR ''A'') s"

text \<open>
  The usage example of \<^verbatim>\<open>README.md\<close>: \<^verbatim>\<open>affine_key key{ 7, 2 }\<close>, each component converted
  by the constructor, the string \<^verbatim>\<open>hello\<close>, and the ciphertext its "Output" block prints.
\<close>

definition readme_key :: affine_key where
  "readme_key = (Construct 7, Construct 2)"

definition readme_hello :: string where
  "readme_hello = ''Hello, world!'' @ [CHR 0x0A]"

definition readme_ciphertext :: string where
  "readme_ciphertext =
     ''zS@@'' @ [CHR 0x22] @ ''?wv'' @ [CHR 0x22] @ ''M@L_'' @ [CHR 0x60]"

text \<open>
  The string of the specification's example of an unknown character, the letter e with an
  acute accent, as the two bytes of its UTF-8 encoding.
\<close>

definition e_acute :: string where
  "e_acute = [CHR 0xC3, CHR 0xA9]"

text \<open>
  Squaring modulo 97, to compute \<open>a ^ 96 mod 97\<close> with small numbers when the inverse is
  checked on each of the 96 nonzero residues.
\<close>

definition sq97 :: "int \<Rightarrow> int" where
  "sq97 a = a * a mod 97"

section \<open>The modular integers and the search in the table\<close>

lemmas z97_rep = Construct.rep_eq Add.rep_eq Multiply.rep_eq Negate.rep_eq

lemma Value_range: "0 \<le> Value a" "Value a < 97"
  using Value [of a] by simp_all

lemma Construct_Value: "Construct (Value a) = a"
  by (simp add: Value_inject [symmetric] z97_rep Value_range)

lemma find_distance_absent: "c \<notin> set xs \<Longrightarrow> find_distance xs c = length xs"
  by (induction xs) auto

lemma find_distance_present: "c \<in> set xs \<Longrightarrow> find_distance xs c < length xs"
  by (induction xs) auto

lemma nth_find_distance: "c \<in> set xs \<Longrightarrow> xs ! find_distance xs c = c"
  by (induction xs) auto

lemma find_distance_nth: "distinct xs \<Longrightarrow> i < length xs \<Longrightarrow> find_distance xs (xs ! i) = i"
proof (induction xs arbitrary: i)
  case Nil
  then show ?case by simp
next
  case (Cons x xs)
  then show ?case by (cases i) auto
qed

lemma length_ch_table: "length ch_table = 97"
  by (simp add: ch_table_def)

lemma distinct_ch_table: "distinct ch_table"
  by (simp add: ch_table_def)

lemma decode_encode: "c \<in> set ch_table \<Longrightarrow> z97_to_char (char_to_z97 c) = c"
proof -
  assume c: "c \<in> set ch_table"
  then have "find_distance ch_table c < 97"
    using find_distance_present [of c ch_table] by (simp add: length_ch_table)
  then have "Value (char_to_z97 c) = int (find_distance ch_table c)"
    by (simp add: char_to_z97_def z97_rep)
  then show ?thesis
    by (simp add: z97_to_char_def nth_find_distance [OF c])
qed

lemma z97_to_char_in_table: "z97_to_char r \<in> set ch_table"
proof -
  have "nat (Value r) < length ch_table"
    using Value_range [of r] by (simp add: length_ch_table)
  then show ?thesis
    unfolding z97_to_char_def by (rule nth_mem)
qed

lemma encode_decode: "char_to_z97 (z97_to_char r) = r"
proof -
  have "nat (Value r) < length ch_table"
    using Value_range [of r] by (simp add: length_ch_table)
  then have "find_distance ch_table (z97_to_char r) = nat (Value r)"
    unfolding z97_to_char_def by (rule find_distance_nth [OF distinct_ch_table])
  then show ?thesis
    by (simp add: char_to_z97_def Value_range Construct_Value)
qed

lemma char_to_z97_absent: "c \<notin> set ch_table \<Longrightarrow> char_to_z97 c = Construct 0"
  by (simp add: char_to_z97_def find_distance_absent length_ch_table
      Value_inject [symmetric] z97_rep)

lemma encrypt_loop_map:
  "encrypt_loop m b pt ct = ct @ map (\<lambda>ch. z97_to_char (Add (Multiply m (char_to_z97 ch)) b)) pt"
  by (induction pt arbitrary: ct) simp_all

lemma decrypt_loop_map:
  "decrypt_loop m_inv b_inv ct pt =
     pt @ map (\<lambda>ch. z97_to_char (Multiply m_inv (Add (char_to_z97 ch) b_inv))) ct"
  by (induction ct arbitrary: pt) simp_all

lemma sq97_power: "sq97 (a ^ n mod 97) = a ^ (2 * n) mod 97"
  by (simp add: sq97_def mod_mult_eq power_add [symmetric] mult_2)

lemma sq97_1: "sq97 a = a ^ 2 mod 97"
  by (simp add: sq97_def power2_eq_square)

lemma power96: "(a::int) ^ 96 mod 97 =
  (let b = sq97 (sq97 (sq97 (sq97 (sq97 a)))) in (b * b mod 97) * b mod 97)"
proof -
  have "sq97 (sq97 (sq97 (sq97 (sq97 a)))) = sq97 (sq97 (sq97 (sq97 (a ^ 2 mod 97))))"
    by (simp add: sq97_1)
  also have "\<dots> = sq97 (sq97 (sq97 (a ^ 4 mod 97)))"
    using sq97_power [of a 2] by simp
  also have "\<dots> = sq97 (sq97 (a ^ 8 mod 97))"
    using sq97_power [of a 4] by simp
  also have "\<dots> = sq97 (a ^ 16 mod 97)"
    using sq97_power [of a 8] by simp
  also have "\<dots> = a ^ 32 mod 97"
    using sq97_power [of a 16] by simp
  finally have b: "sq97 (sq97 (sq97 (sq97 (sq97 a)))) = a ^ 32 mod 97" .
  have "((a ^ 32 mod 97) * (a ^ 32 mod 97) mod 97) * (a ^ 32 mod 97) mod 97
      = (a ^ 32 * a ^ 32) * a ^ 32 mod 97"
    by (simp add: mod_mult_eq mod_mult_left_eq mod_mult_right_eq)
  also have "\<dots> = a ^ 96 mod 97"
    by (simp add: power_add [symmetric])
  finally show ?thesis by (simp add: Let_def b)
qed

lemma fermat_list:
  "list_all (\<lambda>a. (let b = sq97 (sq97 (sq97 (sq97 (sq97 a)))) in (b * b mod 97) * b mod 97) = 1) [1..96]"
  by code_simp

lemma fermat97: "0 < a \<Longrightarrow> a < 97 \<Longrightarrow> (a::int) ^ 96 mod 97 = 1"
proof -
  assume "0 < a" "a < 97"
  then have "a \<in> set [1..96]" by simp
  then show ?thesis
    using fermat_list unfolding power96 list_all_iff by blast
qed

lemma Inverse_correct:
  assumes "Value a \<noteq> 0"
  shows "\<exists>i. Inverse a = Inr i \<and> Multiply a i = Construct 1"
proof -
  have pos: "0 < Value a" "Value a < 97"
    using assms Value_range [of a] by simp_all
  have "Value a * (Value a ^ 95 mod 97) mod 97 = Value a ^ 96 mod 97"
    by (simp add: mod_mult_right_eq power_Suc [symmetric] del: power_Suc)
  then have "Multiply a (Construct (Value a ^ 95)) = Construct 1"
    by (simp add: Value_inject [symmetric] z97_rep fermat97 [OF pos])
  with assms show ?thesis by (simp add: Inverse_def)
qed

lemma affine_inverse:
  assumes "Multiply m i = Construct 1"
  shows "Multiply i (Add (Add (Multiply m x) b) (Negate b)) = x"
proof -
  have one: "Value m * Value i mod 97 = 1"
    using assms by (simp add: Value_inject [symmetric] z97_rep)
  have inner: "((Value m * Value x mod 97 + Value b) mod 97 + (- Value b) mod 97) mod 97
      = Value m * Value x mod 97"
    by (simp add: mod_add_eq)
  have "Value (Multiply i (Add (Add (Multiply m x) b) (Negate b)))
      = Value i * (Value m * Value x mod 97) mod 97"
    by (simp only: z97_rep inner)
  also have "\<dots> = Value i * (Value m * Value x) mod 97"
    by (simp only: mod_mult_right_eq)
  also have "\<dots> = ((Value m * Value i) * Value x) mod 97"
    by (simp only: mult.assoc mult.left_commute [of "Value i"])
  also have "\<dots> = ((Value m * Value i mod 97) * Value x) mod 97"
    by (simp only: mod_mult_left_eq)
  also have "\<dots> = Value x"
    by (simp add: one Value_range)
  finally show ?thesis
    by (simp only: Value_inject)
qed

section \<open>Keys, and the two transforms as maps\<close>

lemma valid_affine_key_iff: "valid_affine_key k \<longleftrightarrow> Value (fst k) \<noteq> 0"
  by (simp add: valid_affine_key_def Value_inject [symmetric] z97_rep)

lemma valid_key_7_2: "valid_affine_key (Construct 7, Construct 2)"
  by (simp add: valid_affine_key_iff z97_rep)

lemma encrypt_valid:
  "valid_affine_key k \<Longrightarrow>
   encrypt k s = Inr (map (\<lambda>c. z97_to_char (Add (Multiply (fst k) (char_to_z97 c)) (snd k))) s)"
  by (simp add: encrypt_def encrypt_loop_map)

lemma decrypt_valid:
  assumes "valid_affine_key k"
  shows "\<exists>i. Inverse (fst k) = Inr i \<and> Multiply (fst k) i = Construct 1 \<and>
    decrypt k s = Inr (map (\<lambda>c. z97_to_char (Multiply i (Add (char_to_z97 c) (Negate (snd k))))) s)"
proof -
  from assms have "Value (fst k) \<noteq> 0" by (simp add: valid_affine_key_iff)
  then obtain i where i: "Inverse (fst k) = Inr i" "Multiply (fst k) i = Construct 1"
    using Inverse_correct by blast
  with assms show ?thesis by (simp add: decrypt_def decrypt_loop_map)
qed

lemma Add_Negate: "Add b (Negate b) = Construct 0"
  by (simp add: Value_inject [symmetric] z97_rep mod_add_right_eq)

lemma hello_in_table: "set ''Hello, world!\<newline>'' \<subseteq> set ch_table"
  by (simp add: ch_table_def)

section \<open>The table\<close>

lemma ch_table_alphabet_spec: "ch_table = alphabet_spec"
  by code_simp

lemma z97_to_char_Construct: "i < 97 \<Longrightarrow> z97_to_char (Construct (int i)) = ch_table ! i"
  by (simp add: z97_to_char_def z97_rep)

lemma char_to_z97_nth: "i < 97 \<Longrightarrow> char_to_z97 (ch_table ! i) = Construct (int i)"
  by (simp add: char_to_z97_def find_distance_nth distinct_ch_table length_ch_table)

lemma char_to_z97_A: "char_to_z97 CHR ''A'' = Construct 0"
  by (simp add: char_to_z97_def ch_table_def)

lemma char_to_z97_unknown_as_A:
  "char_to_z97 (if c \<in> set ch_table then c else CHR ''A'') = char_to_z97 c"
  by (simp add: char_to_z97_A char_to_z97_absent)

lemma raises_invalid_key_simps:
  "raises_invalid_key (Inl (invalid_argument msg))"
  "\<not> raises_invalid_key (Inl DomainError)"
  "\<not> raises_invalid_key (Inr out)"
  by (simp_all add: raises_invalid_key_def)

lemma eacute_absent: "CHR 0xC3 \<notin> set ch_table"
  by (simp add: ch_table_def)

section \<open>Evaluating the cipher on given strings\<close>

lemma out_in_table:
  "set (map (\<lambda>c. z97_to_char (f c)) s) \<subseteq> set ch_table"
  by (auto simp: z97_to_char_in_table)

lemma valid_readme_key: "valid_affine_key readme_key"
  by (simp add: readme_key_def valid_key_7_2)

lemma Inverse_7: "Inverse (Construct 7) = Inr (Construct 14)"
  by (simp add: Inverse_def z97_rep Value_inject [symmetric])

lemmas cipher_eval = encrypt_def decrypt_def Inverse_7 char_to_z97_def z97_to_char_def
  z97_rep ch_table_def

lemma e_acute_outside: "\<not> set e_acute \<subseteq> set ch_table"
  by (simp add: e_acute_def ch_table_def)

section \<open>The claims\<close>

text \<open>
  C1 (round trip). For every valid key \<open>k\<close> and every string \<open>s\<close> all of whose characters
  are in the 97-character table, \<open>encrypt k s\<close> returns a ciphertext, and \<open>decrypt k\<close> of
  that ciphertext returns \<open>s\<close>.
\<close>

theorem encrypt_decrypt_roundtrip:
  assumes "valid_affine_key k" and "set s \<subseteq> set ch_table"
  shows "\<exists>ct. encrypt k s = Inr ct \<and> decrypt k ct = Inr s"
proof -
  let ?f = "\<lambda>c. z97_to_char (Add (Multiply (fst k) (char_to_z97 c)) (snd k))"
  obtain i where i: "Multiply (fst k) i = Construct 1"
    and d: "decrypt k (map ?f s) =
      Inr (map (\<lambda>c. z97_to_char (Multiply i (Add (char_to_z97 c) (Negate (snd k))))) (map ?f s))"
    using decrypt_valid [OF assms(1), of "map ?f s"] by blast
  have "map (\<lambda>c. z97_to_char (Multiply i (Add (char_to_z97 c) (Negate (snd k))))) (map ?f s) = s"
  proof -
    have "\<And>c. c \<in> set s \<Longrightarrow>
      z97_to_char (Multiply i (Add (char_to_z97 (?f c)) (Negate (snd k)))) = c"
      using assms(2) by (auto simp: encode_decode affine_inverse [OF i] decode_encode)
    then show ?thesis by (simp add: map_idI)
  qed
  with d have "decrypt k (map ?f s) = Inr s" by simp
  then show ?thesis using encrypt_valid [OF assms(1), of s] by simp
qed

theorem encrypt_decrypt_roundtrip_witness:
  "valid_affine_key (Construct 7, Construct 2) \<and> set ''Hello, world!\<newline>'' \<subseteq> set ch_table \<and>
   (\<exists>ct. encrypt (Construct 7, Construct 2) ''Hello, world!\<newline>'' = Inr ct \<and>
         decrypt (Construct 7, Construct 2) ct = Inr ''Hello, world!\<newline>'')"
  using encrypt_decrypt_roundtrip [OF valid_key_7_2 hello_in_table] valid_key_7_2 hello_in_table
  by blast

text \<open>
  C3 (invalid key). The key is built from any integer slope \<open>m\<close> and any intercept \<open>b\<close>.
  When \<open>m\<close> is 0 modulo 97, \<open>encrypt\<close> and \<open>decrypt\<close> both end in
  \<^verbatim>\<open>std::invalid_argument\<close>, for every string; when it is not, neither does.
\<close>

theorem invalid_key_error:
  "(m mod 97 = 0 \<longrightarrow>
      raises_invalid_key (encrypt (Construct m, b) s) \<and>
      raises_invalid_key (decrypt (Construct m, b) s)) \<and>
   (m mod 97 \<noteq> 0 \<longrightarrow>
      \<not> raises_invalid_key (encrypt (Construct m, b) s) \<and>
      \<not> raises_invalid_key (decrypt (Construct m, b) s))"
proof (cases "m mod 97 = 0")
  case True
  then have "\<not> valid_affine_key (Construct m, b)"
    by (simp add: valid_affine_key_iff z97_rep)
  with True show ?thesis
    by (simp add: encrypt_def decrypt_def raises_invalid_key_simps)
next
  case False
  then have v: "valid_affine_key (Construct m, b)"
    by (simp add: valid_affine_key_iff z97_rep)
  obtain pt where "decrypt (Construct m, b) s = Inr pt"
    using decrypt_valid [OF v, of s] by blast
  with False show ?thesis
    by (simp add: encrypt_valid [OF v] raises_invalid_key_simps)
qed

theorem invalid_key_error_witness:
  "(0::int) mod 97 = 0 \<and>
   raises_invalid_key (encrypt (Construct 0, Construct 5) ''abc'') \<and>
   raises_invalid_key (decrypt (Construct 0, Construct 5) ''abc'') \<and>
   (7::int) mod 97 \<noteq> 0 \<and>
   \<not> raises_invalid_key (encrypt (Construct 7, Construct 5) ''abc'') \<and>
   \<not> raises_invalid_key (decrypt (Construct 7, Construct 5) ''abc'')"
  using invalid_key_error [of 0 "Construct 5" "''abc''"]
    invalid_key_error [of 7 "Construct 5" "''abc''"]
  by simp

text \<open>
  C4 (encrypt, character by character). For a valid key and a string of alphabet
  characters, the ciphertext is the plaintext with each character \<open>c\<close> replaced, in place,
  by the character of the residue \<open>slope * char_to_z97 c + intercept\<close>, and the value of
  that residue is the integer expression reduced modulo 97.
\<close>

theorem encrypt_per_character:
  assumes "valid_affine_key k" and "set s \<subseteq> set ch_table"
  shows "encrypt k s =
           Inr (map (\<lambda>c. z97_to_char (Add (Multiply (fst k) (char_to_z97 c)) (snd k))) s) \<and>
         (\<forall>c. Value (Add (Multiply (fst k) (char_to_z97 c)) (snd k)) =
           (Value (fst k) * Value (char_to_z97 c) + Value (snd k)) mod 97)"
  using assms(1) by (simp add: encrypt_valid z97_rep mod_add_left_eq)

theorem encrypt_per_character_witness:
  "valid_affine_key (Construct 7, Construct 2) \<and> set ''Hello, world!\<newline>'' \<subseteq> set ch_table \<and>
   encrypt (Construct 7, Construct 2) ''Hello, world!\<newline>'' =
     Inr (map (\<lambda>c. z97_to_char (Add (Multiply (Construct 7) (char_to_z97 c)) (Construct 2)))
       ''Hello, world!\<newline>'')"
  using encrypt_per_character [OF valid_key_7_2 hello_in_table] valid_key_7_2 hello_in_table
  by simp

text \<open>
  C5 (decrypt, character by character). For a valid key and a string of alphabet
  characters, there are \<open>m_inv\<close>, with \<open>slope * m_inv = 1\<close>, and \<open>b_neg\<close>, with
  \<open>intercept + b_neg = 0\<close>, such that the plaintext is the ciphertext with each character
  \<open>c\<close> replaced, in place, by the character of \<open>m_inv * (char_to_z97 c + b_neg)\<close>, whose
  value is \<open>m_inv * (y - intercept)\<close> modulo 97.
\<close>

theorem decrypt_per_character:
  assumes "valid_affine_key k" and "set s \<subseteq> set ch_table"
  shows "\<exists>m_inv b_neg.
           Multiply (fst k) m_inv = Construct 1 \<and> Add (snd k) b_neg = Construct 0 \<and>
           decrypt k s =
             Inr (map (\<lambda>c. z97_to_char (Multiply m_inv (Add (char_to_z97 c) b_neg))) s) \<and>
           (\<forall>y. Value (Multiply m_inv (Add y b_neg)) =
             (Value m_inv * (Value y - Value (snd k))) mod 97)"
proof -
  obtain i where i: "Multiply (fst k) i = Construct 1"
    and d: "decrypt k s =
      Inr (map (\<lambda>c. z97_to_char (Multiply i (Add (char_to_z97 c) (Negate (snd k))))) s)"
    using decrypt_valid [OF assms(1), of s] by blast
  have "Value (Multiply i (Add y (Negate (snd k)))) = (Value i * (Value y - Value (snd k))) mod 97"
    for y
  proof -
    have "(Value y + (- Value (snd k)) mod 97) mod 97 = (Value y - Value (snd k)) mod 97"
      by (simp add: mod_add_right_eq)
    then show ?thesis
      by (simp add: z97_rep mod_mult_right_eq)
  qed
  with i d Add_Negate [of "snd k"] show ?thesis by blast
qed

theorem decrypt_per_character_witness:
  "valid_affine_key (Construct 7, Construct 2) \<and> set ''Hello, world!\<newline>'' \<subseteq> set ch_table \<and>
   (\<exists>m_inv b_neg.
      Multiply (Construct 7) m_inv = Construct 1 \<and> Add (Construct 2) b_neg = Construct 0 \<and>
      decrypt (Construct 7, Construct 2) ''Hello, world!\<newline>'' =
        Inr (map (\<lambda>c. z97_to_char (Multiply m_inv (Add (char_to_z97 c) b_neg)))
          ''Hello, world!\<newline>''))"
  using decrypt_per_character [OF valid_key_7_2 hello_in_table] valid_key_7_2 hello_in_table
  by auto

text \<open>
  C6 (the table). The table of the source is the alphabet the specification lists: 97
  distinct characters, and \<open>char_to_z97\<close> and \<open>z97_to_char\<close> are inverse to each other
  between its characters and the residues, the character at index \<open>i\<close> going with the
  residue \<open>i\<close>.
\<close>

theorem ch_table_bijection:
  "ch_table = alphabet_spec \<and> length ch_table = 97 \<and> distinct ch_table \<and>
   (\<forall>c \<in> set ch_table. z97_to_char (char_to_z97 c) = c) \<and>
   (\<forall>r. char_to_z97 (z97_to_char r) = r) \<and>
   (\<forall>i < 97. z97_to_char (Construct (int i)) = alphabet_spec ! i \<and>
              char_to_z97 (alphabet_spec ! i) = Construct (int i))"
  by (simp add: ch_table_alphabet_spec [symmetric] length_ch_table distinct_ch_table
      decode_encode encode_decode z97_to_char_Construct char_to_z97_nth)

theorem ch_table_bijection_witness:
  "CHR ''H'' \<in> set ch_table \<and> z97_to_char (char_to_z97 CHR ''H'') = CHR ''H'' \<and>
   (7::nat) < 97 \<and> z97_to_char (Construct (int 7)) = alphabet_spec ! 7 \<and>
   char_to_z97 (alphabet_spec ! 7) = Construct (int 7)"
proof -
  have h: "CHR ''H'' \<in> set ch_table" by (simp add: ch_table_def)
  have l: "(7::nat) < 97" by simp
  from ch_table_bijection h l show ?thesis by blast
qed

text \<open>
  C8 (generated keys). When the slope draw is in [1, 96] and the intercept draw in
  [0, 96], the key \<open>make_key\<close> builds from them is valid, and its slope and intercept are
  the draws.
\<close>

theorem make_key_valid:
  assumes "1 \<le> m_draw" and "m_draw \<le> 96" and "0 \<le> b_draw" and "b_draw \<le> 96"
  shows "valid_affine_key (make_key m_draw b_draw) \<and>
         Value (fst (make_key m_draw b_draw)) = m_draw \<and>
         Value (snd (make_key m_draw b_draw)) = b_draw"
  using assms by (simp add: make_key_def valid_affine_key_iff z97_rep)

theorem make_key_valid_witness:
  "(1::int) \<le> 5 \<and> (5::int) \<le> 96 \<and> (0::int) \<le> 0 \<and> (0::int) \<le> 96 \<and>
   valid_affine_key (make_key 5 0)"
  using make_key_valid [of 5 0] by simp

text \<open>
  C9 (lengths). For a valid key and any string, \<open>encrypt\<close> and \<open>decrypt\<close> return a string
  of the length of their input.
\<close>

theorem length_preserved:
  assumes "valid_affine_key k"
  shows "(\<exists>ct. encrypt k s = Inr ct \<and> length ct = length s) \<and>
         (\<exists>pt. decrypt k s = Inr pt \<and> length pt = length s)"
proof -
  obtain i where "decrypt k s =
      Inr (map (\<lambda>c. z97_to_char (Multiply i (Add (char_to_z97 c) (Negate (snd k))))) s)"
    using decrypt_valid [OF assms, of s] by blast
  then show ?thesis by (simp add: encrypt_valid [OF assms])
qed

theorem length_preserved_witness:
  "valid_affine_key (Construct 7, Construct 2) \<and>
   (\<exists>ct. encrypt (Construct 7, Construct 2) ''abc'' = Inr ct \<and> length ct = length ''abc'') \<and>
   (\<exists>pt. decrypt (Construct 7, Construct 2) ''abc'' = Inr pt \<and> length pt = length ''abc'')"
  using length_preserved [OF valid_key_7_2, of "''abc''"] valid_key_7_2 by blast

text \<open>
  C10 (characters outside the table). For a character that is not in the table,
  \<^verbatim>\<open>std::find\<close> reaches the end, the distance is 97, and the residue is 97 mod 97 = 0,
  the residue of \<open>A\<close>. So with a valid key \<open>encrypt\<close> and \<open>decrypt\<close> return a result on
  every string, the one they return on the string with each such character replaced by
  \<open>A\<close>.
\<close>

theorem unknown_character_as_A:
  assumes "valid_affine_key k"
  shows "(c \<notin> set ch_table \<longrightarrow>
            find_distance ch_table c = 97 \<and> Value (char_to_z97 c) = 97 mod 97 \<and>
            char_to_z97 c = char_to_z97 CHR ''A'') \<and>
         (\<exists>ct. encrypt k s = Inr ct \<and> encrypt k (unknown_as_A s) = Inr ct) \<and>
         (\<exists>pt. decrypt k s = Inr pt \<and> decrypt k (unknown_as_A s) = Inr pt)"
proof -
  have a: "c \<notin> set ch_table \<longrightarrow>
            find_distance ch_table c = 97 \<and> Value (char_to_z97 c) = 97 mod 97 \<and>
            char_to_z97 c = char_to_z97 CHR ''A''"
    by (simp add: find_distance_absent length_ch_table char_to_z97_absent char_to_z97_A z97_rep)
  have e: "encrypt k (unknown_as_A s) = encrypt k s"
    by (simp add: encrypt_valid [OF assms] unknown_as_A_def o_def char_to_z97_unknown_as_A)
  obtain i where i: "Inverse (fst k) = Inr i"
    using decrypt_valid [OF assms, of s] by blast
  have d: "decrypt k (unknown_as_A s) = decrypt k s"
    using assms i
    by (simp add: decrypt_def decrypt_loop_map unknown_as_A_def o_def char_to_z97_unknown_as_A)
  have en: "\<exists>ct. encrypt k s = Inr ct \<and> encrypt k (unknown_as_A s) = Inr ct"
    unfolding e by (simp add: encrypt_valid [OF assms])
  obtain pt where "decrypt k s = Inr pt"
    using decrypt_valid [OF assms, of s] by blast
  then have de: "\<exists>pt. decrypt k s = Inr pt \<and> decrypt k (unknown_as_A s) = Inr pt"
    by (simp add: d)
  from a en de show ?thesis by blast
qed

theorem unknown_character_as_A_witness:
  "valid_affine_key (Construct 7, Construct 2) \<and> CHR 0xC3 \<notin> set ch_table \<and>
   char_to_z97 CHR 0xC3 = char_to_z97 CHR ''A'' \<and>
   (\<exists>ct. encrypt (Construct 7, Construct 2) [CHR ''a'', CHR 0xC3] = Inr ct \<and>
         encrypt (Construct 7, Construct 2) (unknown_as_A [CHR ''a'', CHR 0xC3]) = Inr ct)"
  using unknown_character_as_A [OF valid_key_7_2, of "CHR 0xC3" "[CHR ''a'', CHR 0xC3]"]
    valid_key_7_2 eacute_absent
  by blast

text \<open>
  C7 (the example of the README). With the key (7, 2), the 14 characters of
  \<open>Hello, world!\<close> and a newline encrypt to the 14 characters the README prints, and these
  decrypt to the plaintext.
\<close>

theorem readme_example:
  "length readme_hello = 14 \<and>
   encrypt readme_key readme_hello = Inr readme_ciphertext \<and>
   length readme_ciphertext = 14 \<and>
   decrypt readme_key readme_ciphertext = Inr readme_hello"
  using valid_key_7_2
  by (simp add: readme_key_def readme_hello_def readme_ciphertext_def cipher_eval)

text \<open>
  C2 (characters outside the table). The claim is that \<open>encrypt\<close> and \<open>decrypt\<close> fail on
  a string with a character outside the table. The source has no such error: with the key
  (7, 2), the two bytes of \<open>e_acute\<close>, neither of them in the table, encrypt to \<open>CC\<close> and
  decrypt to two dollar signs.
\<close>

theorem unknown_character_counterexample:
  "valid_affine_key readme_key \<and> CHR 0xC3 \<in> set e_acute \<and> CHR 0xC3 \<notin> set ch_table \<and>
   encrypt readme_key e_acute = Inr ''CC'' \<and> decrypt readme_key e_acute = Inr ''$$''"
  using valid_key_7_2
  by (simp add: readme_key_def e_acute_def cipher_eval)

text \<open>
  C2 as the source has it: for a valid key and a string with at least one character
  outside the table, \<open>encrypt\<close> and \<open>decrypt\<close> do not fail; each returns a string of the
  length of the input, all of whose characters are in the table.
\<close>

theorem unknown_character_no_error:
  assumes "valid_affine_key k" and "\<not> set s \<subseteq> set ch_table"
  shows "(\<exists>ct. encrypt k s = Inr ct \<and> length ct = length s \<and> set ct \<subseteq> set ch_table) \<and>
         (\<exists>pt. decrypt k s = Inr pt \<and> length pt = length s \<and> set pt \<subseteq> set ch_table)"
proof -
  obtain i where d: "decrypt k s =
      Inr (map (\<lambda>c. z97_to_char (Multiply i (Add (char_to_z97 c) (Negate (snd k))))) s)"
    using decrypt_valid [OF assms(1), of s] by blast
  have "\<exists>pt. decrypt k s = Inr pt \<and> length pt = length s \<and> set pt \<subseteq> set ch_table"
    unfolding d using out_in_table by simp
  moreover have "\<exists>ct. encrypt k s = Inr ct \<and> length ct = length s \<and> set ct \<subseteq> set ch_table"
    unfolding encrypt_valid [OF assms(1)] using out_in_table by simp
  ultimately show ?thesis by blast
qed

theorem unknown_character_no_error_witness:
  "valid_affine_key readme_key \<and> \<not> set e_acute \<subseteq> set ch_table \<and>
   (\<exists>ct. encrypt readme_key e_acute = Inr ct \<and> length ct = length e_acute \<and>
      set ct \<subseteq> set ch_table) \<and>
   (\<exists>pt. decrypt readme_key e_acute = Inr pt \<and> length pt = length e_acute \<and>
      set pt \<subseteq> set ch_table)"
  using unknown_character_no_error [OF valid_readme_key e_acute_outside]
    valid_readme_key e_acute_outside
  by blast

end
